theory Spec2Isabelle
  imports Complex_Main
begin

section \<open>JavaScript numbers\<close>

text \<open>
  Every number of \<^verbatim>\<open>script.js\<close> is a JavaScript Number. The embedding keeps the
  values a Number can take that matter to the program: a finite value, the two infinities
  and NaN. Finite arithmetic is exact (rounding to the nearest double is left out); the
  special values follow IEEE 754 as ECMAScript applies it. Every zero divisor of the
  program is an integer 0, a difference of two equal integers or a quotient of such a
  zero by a positive constant, that is \<open>+0\<close>, so a positive dividend over zero is
  \<open>+Infinity\<close>, a negative one \<open>-Infinity\<close>, and \<open>0/0\<close> is NaN.
\<close>

datatype jsnum = Fin real | PInf | NInf | NaN

fun js_neg :: "jsnum \<Rightarrow> jsnum" where
  "js_neg (Fin a) = Fin (- a)"
| "js_neg PInf = NInf"
| "js_neg NInf = PInf"
| "js_neg NaN = NaN"

fun js_add :: "jsnum \<Rightarrow> jsnum \<Rightarrow> jsnum" where
  "js_add NaN _ = NaN"
| "js_add _ NaN = NaN"
| "js_add (Fin a) (Fin b) = Fin (a + b)"
| "js_add PInf NInf = NaN"
| "js_add NInf PInf = NaN"
| "js_add PInf _ = PInf"
| "js_add _ PInf = PInf"
| "js_add NInf _ = NInf"
| "js_add _ NInf = NInf"

definition js_sub :: "jsnum \<Rightarrow> jsnum \<Rightarrow> jsnum" where
  "js_sub a b = js_add a (js_neg b)"

fun js_div :: "jsnum \<Rightarrow> jsnum \<Rightarrow> jsnum" where
  "js_div NaN _ = NaN"
| "js_div _ NaN = NaN"
| "js_div (Fin a) (Fin b) =
     (if b = 0 then (if a = 0 then NaN else if 0 < a then PInf else NInf)
      else Fin (a / b))"
| "js_div (Fin a) PInf = Fin 0"
| "js_div (Fin a) NInf = Fin 0"
| "js_div PInf (Fin b) = (if 0 \<le> b then PInf else NInf)"
| "js_div NInf (Fin b) = (if 0 \<le> b then NInf else PInf)"
| "js_div PInf PInf = NaN"
| "js_div PInf NInf = NaN"
| "js_div NInf PInf = NaN"
| "js_div NInf NInf = NaN"

text \<open>\<^verbatim>\<open>Math.pow(x, 2)\<close>, \<^verbatim>\<open>Math.sqrt\<close> and \<^verbatim>\<open>Math.abs\<close>.\<close>

fun js_pow2 :: "jsnum \<Rightarrow> jsnum" where
  "js_pow2 (Fin a) = Fin (a\<^sup>2)"
| "js_pow2 PInf = PInf"
| "js_pow2 NInf = PInf"
| "js_pow2 NaN = NaN"

fun js_sqrt :: "jsnum \<Rightarrow> jsnum" where
  "js_sqrt (Fin a) = (if a < 0 then NaN else Fin (sqrt a))"
| "js_sqrt PInf = PInf"
| "js_sqrt NInf = NaN"
| "js_sqrt NaN = NaN"

fun js_abs :: "jsnum \<Rightarrow> jsnum" where
  "js_abs (Fin a) = Fin \<bar>a\<bar>"
| "js_abs PInf = PInf"
| "js_abs NInf = PInf"
| "js_abs NaN = NaN"

text \<open>The comparisons \<^verbatim>\<open>a < b\<close> and \<^verbatim>\<open>a > b\<close>: false as soon as one side is NaN.\<close>

fun js_lt :: "jsnum \<Rightarrow> jsnum \<Rightarrow> bool" where
  "js_lt NaN _ = False"
| "js_lt _ NaN = False"
| "js_lt (Fin a) (Fin b) = (a < b)"
| "js_lt (Fin a) PInf = True"
| "js_lt NInf (Fin b) = True"
| "js_lt NInf PInf = True"
| "js_lt _ _ = False"

definition js_gt :: "jsnum \<Rightarrow> jsnum \<Rightarrow> bool" where
  "js_gt a b = js_lt b a"

text \<open>\<^verbatim>\<open>Math.max(a, b)\<close> and \<^verbatim>\<open>Math.min(a, b)\<close>: NaN if an argument is NaN.\<close>

fun js_max2 :: "jsnum \<Rightarrow> jsnum \<Rightarrow> jsnum" where
  "js_max2 NaN _ = NaN"
| "js_max2 _ NaN = NaN"
| "js_max2 a b = (if js_lt a b then b else a)"

fun js_min2 :: "jsnum \<Rightarrow> jsnum \<Rightarrow> jsnum" where
  "js_min2 NaN _ = NaN"
| "js_min2 _ NaN = NaN"
| "js_min2 a b = (if js_lt b a then b else a)"

text \<open>\<^verbatim>\<open>Math.max(...xs)\<close>: the maximum of no argument is \<open>-Infinity\<close>.\<close>

definition js_max_list :: "jsnum list \<Rightarrow> jsnum" where
  "js_max_list xs = foldl js_max2 NInf xs"


section \<open>The trait classifier\<close>

text \<open>
  The object \<^verbatim>\<open>analyzeBehaviorPatterns\<close> returns. The trait names and insight sentences
  of the source are Russian string literals; each is one constructor here, named by the
  label the specification gives it: \<open>Decisive\<close> (Reshitelny), \<open>Attentive\<close>
  (Vnimatelny), \<open>Active\<close> (Aktivny), \<open>Systematic\<close> (Sistemny), \<open>QuickReacting\<close>
  (Bystroreagiruyushchiy), \<open>Energetic\<close> (Energichny), \<open>Balanced\<close> (Sbalansirovanny).
\<close>

record patterns =
  avgSpeed :: jsnum
  clickFrequency :: jsnum
  scrollIntensity :: jsnum
  movementConsistency :: jsnum
  decisionSpeed :: jsnum

datatype trait_name =
  Decisive | Attentive | Active | Systematic | QuickReacting | Energetic | Balanced

datatype style_class = confident | cautious | impulsive

type_synonym trait = "trait_name \<times> style_class"

datatype insight =
  EnergeticGoalDriven | MethodicalDetailOriented | FastIntuitive | AdaptiveBalanced

definition generatePersonalityProfile :: "patterns \<Rightarrow> trait list" where
  "generatePersonalityProfile p =
     (let traits = [];
          traits = (if js_gt (avgSpeed p) (Fin 500) then traits @ [(Decisive, confident)]
                    else if js_lt (avgSpeed p) (Fin 200) then traits @ [(Attentive, cautious)]
                    else traits);
          traits = (if js_gt (clickFrequency p) (Fin 5) then traits @ [(Active, impulsive)]
                    else traits);
          traits = (if js_gt (movementConsistency p) (Fin (7 / 10))
                    then traits @ [(Systematic, confident)] else traits);
          traits = (if js_gt (decisionSpeed p) (Fin (8 / 10))
                    then traits @ [(QuickReacting, impulsive)] else traits);
          traits = (if js_gt (scrollIntensity p) (Fin 100)
                    then traits @ [(Energetic, impulsive)] else traits)
      in if length traits > 0 then traits else [(Balanced, confident)])"

definition generateInsight :: "patterns \<Rightarrow> trait list \<Rightarrow> insight" where
  "generateInsight p traits =
     (if js_gt (avgSpeed p) (Fin 600) \<and> js_gt (clickFrequency p) (Fin 8)
      then EnergeticGoalDriven
      else if js_lt (avgSpeed p) (Fin 300) \<and> js_gt (movementConsistency p) (Fin (8 / 10))
      then MethodicalDetailOriented
      else if js_gt (decisionSpeed p) (Fin (9 / 10)) then FastIntuitive
      else AdaptiveBalanced)"

text \<open>The two steps of \<^verbatim>\<open>updateAnalysis\<close> that classify a snapshot.\<close>

definition classify :: "patterns \<Rightarrow> trait list \<times> insight" where
  "classify p = (let traits = generatePersonalityProfile p in (traits, generateInsight p traits))"

text \<open>The snapshot of the specification's neutral defaults.\<close>

definition neutral :: patterns where
  "neutral = \<lparr>avgSpeed = Fin 0, clickFrequency = Fin 0, scrollIntensity = Fin 0,
     movementConsistency = Fin (1 / 2), decisionSpeed = Fin (1 / 2)\<rparr>"

text \<open>No threshold rule of \<^verbatim>\<open>generatePersonalityProfile\<close> fires.\<close>

definition no_rule_fires :: "patterns \<Rightarrow> bool" where
  "no_rule_fires p =
     (\<not> js_gt (avgSpeed p) (Fin 500) \<and> \<not> js_lt (avgSpeed p) (Fin 200) \<and>
      \<not> js_gt (clickFrequency p) (Fin 5) \<and> \<not> js_gt (movementConsistency p) (Fin (7 / 10)) \<and>
      \<not> js_gt (decisionSpeed p) (Fin (8 / 10)) \<and> \<not> js_gt (scrollIntensity p) (Fin 100))"

section \<open>The event buffers\<close>

text \<open>
  The samples the handlers push. Coordinates, scroll offsets and timestamps come from the
  browser (\<^verbatim>\<open>event.clientX\<close>, \<^verbatim>\<open>window.scrollY\<close>, \<^verbatim>\<open>Date.now()\<close>) and are finite
  numbers, the timestamps integers; a speed, a velocity, a ratio or a stored pressure is
  computed by the program and is any Number.
\<close>

record pointer_sample =
  ps_x :: real
  ps_y :: real
  ps_speed :: jsnum
  ps_timestamp :: int

record click_sample =
  cs_x :: real
  cs_y :: real
  cs_timestamp :: int
  cs_pressure :: jsnum

record scroll_sample =
  ss_position :: real
  ss_timestamp :: int
  ss_velocity :: jsnum

record movement_point =
  mp_x :: jsnum
  mp_y :: jsnum
  mp_time :: int

text \<open>
  The fields of \<^verbatim>\<open>this\<close>, and the children of the element \<^verbatim>\<open>clickHeatmap\<close>, the one
  part of the page that the statements below are about; the page is taken to have this
  element, with no child at the start. A heatmap cell is the list of its CSS classes. The text
  slots of \<^verbatim>\<open>updateMetric\<close> and the timeline of \<^verbatim>\<open>addTimelineEvent\<close> are write-only
  and are left out.
\<close>

type_synonym cell = "string list"

record analyzer =
  mouseData :: "pointer_sample list"
  clickData :: "click_sample list"
  scrollData :: "scroll_sample list"
  sessionStart :: int
  movementPoints :: "movement_point list"
  lastMousePosition :: "real \<times> real"
  lastMoveTime :: int
  heatmap :: "cell list"

text \<open>
  The constructor, on a page with an empty heatmap. It calls \<^verbatim>\<open>Date.now()\<close> twice, for
  \<^verbatim>\<open>sessionStart\<close> and for \<^verbatim>\<open>lastMoveTime\<close>.
\<close>

definition init :: "int \<Rightarrow> int \<Rightarrow> analyzer" where
  "init now now' = \<lparr>mouseData = [], clickData = [], scrollData = [], sessionStart = now,
     movementPoints = [], lastMousePosition = (0, 0), lastMoveTime = now', heatmap = []\<rparr>"

text \<open>
  What a handler reads of its event and of the window. \<^verbatim>\<open>event.pressure\<close> is
  \<open>None\<close> when the event has no such field (\<^verbatim>\<open>undefined\<close>).
\<close>

record mouse_event =
  clientX :: real
  clientY :: real
  pressure :: "jsnum option"

record window =
  innerWidth :: int
  innerHeight :: int

definition calculateDistance :: "jsnum \<Rightarrow> jsnum \<Rightarrow> jsnum \<Rightarrow> jsnum \<Rightarrow> jsnum" where
  "calculateDistance x1 y1 x2 y2 =
     js_sqrt (js_add (js_pow2 (js_sub x2 x1)) (js_pow2 (js_sub y2 y1)))"

definition handleMouseMove :: "int \<Rightarrow> window \<Rightarrow> mouse_event \<Rightarrow> analyzer \<Rightarrow> analyzer" where
  "handleMouseMove now w event this =
     (let currentTime = now;
          timeDiff = currentTime - lastMoveTime this
      in if timeDiff > 50 then
           let distance = calculateDistance
                 (Fin (fst (lastMousePosition this))) (Fin (snd (lastMousePosition this)))
                 (Fin (clientX event)) (Fin (clientY event));
               speed = js_div distance (js_div (Fin (of_int timeDiff)) (Fin 1000))
           in this\<lparr>
                mouseData := mouseData this @
                  [\<lparr>ps_x = clientX event, ps_y = clientY event, ps_speed = speed,
                    ps_timestamp = currentTime\<rparr>],
                lastMousePosition := (clientX event, clientY event),
                lastMoveTime := currentTime,
                movementPoints := movementPoints this @
                  [\<lparr>mp_x = js_div (Fin (clientX event)) (Fin (of_int (innerWidth w))),
                    mp_y = js_div (Fin (clientY event)) (Fin (of_int (innerHeight w))),
                    mp_time = currentTime\<rparr>]\<rparr>
         else this)"

text \<open>\<^verbatim>\<open>event.pressure || 0.5\<close>: \<^verbatim>\<open>undefined\<close>, \<open>0\<close> and NaN are falsy.\<close>

definition js_truthy :: "jsnum option \<Rightarrow> bool" where
  "js_truthy v = (case v of None \<Rightarrow> False | Some NaN \<Rightarrow> False | Some (Fin a) \<Rightarrow> a \<noteq> 0
                  | Some _ \<Rightarrow> True)"

definition js_or :: "jsnum option \<Rightarrow> jsnum \<Rightarrow> jsnum" where
  "js_or v d = (case v of Some a \<Rightarrow> (if js_truthy v then a else d) | None \<Rightarrow> d)"

text \<open>
  Lines 117 to 121: \<^verbatim>\<open>appendChild\<close>, then \<^verbatim>\<open>removeChild(firstChild)\<close> when more than 50
  children are there. It is written for any kind of node, so that a theorem can tell the
  nodes apart.
\<close>

definition appendCapped :: "'a list \<Rightarrow> 'a \<Rightarrow> 'a list" where
  "appendCapped children c =
     (let children = children @ [c]
      in if length children > 50 then tl children else children)"

text \<open>The cell \<^verbatim>\<open>updateClickHeatmap\<close> creates when \<^verbatim>\<open>clickData\<close> holds \<open>n\<close> samples.\<close>

definition newCell :: "nat \<Rightarrow> cell" where
  "newCell n =
     (let classes = [''heatmap-cell'', ''active''];
          intensity = js_min2 (js_div (Fin (of_nat n)) (Fin 10)) (Fin 1)
      in if js_gt intensity (Fin (7 / 10)) then classes @ [''intense''] else classes)"

definition updateClickHeatmap :: "real \<Rightarrow> real \<Rightarrow> analyzer \<Rightarrow> analyzer" where
  "updateClickHeatmap x y this =
     this\<lparr>heatmap := appendCapped (heatmap this) (newCell (length (clickData this)))\<rparr>"

definition handleClick :: "int \<Rightarrow> mouse_event \<Rightarrow> analyzer \<Rightarrow> analyzer" where
  "handleClick now event this =
     (let this = this\<lparr>clickData := clickData this @
                   [\<lparr>cs_x = clientX event, cs_y = clientY event, cs_timestamp = now,
                     cs_pressure = js_or (pressure event) (Fin (1 / 2))\<rparr>]\<rparr>
      in updateClickHeatmap (clientX event) (clientY event) this)"

text \<open>
  \<^verbatim>\<open>calculateScrollVelocity\<close> reads the buffer as it is when it is called. Both indices
  are in range once the length is at least 2.
\<close>

definition calculateScrollVelocity :: "analyzer \<Rightarrow> jsnum" where
  "calculateScrollVelocity this =
     (if length (scrollData this) < 2 then Fin 0
      else
        let last = scrollData this ! (length (scrollData this) - 1);
            prev = scrollData this ! (length (scrollData this) - 2)
        in js_div (js_abs (js_sub (Fin (ss_position last)) (Fin (ss_position prev))))
             (js_div (js_sub (Fin (of_int (ss_timestamp last))) (Fin (of_int (ss_timestamp prev))))
                (Fin 1000)))"

text \<open>
  \<^verbatim>\<open>handleScroll\<close>: the object literal, and with it the call of
  \<^verbatim>\<open>calculateScrollVelocity\<close>, is evaluated before \<^verbatim>\<open>push\<close> runs, so the velocity is
  computed on the buffer without the new sample.
\<close>

definition handleScroll :: "int \<Rightarrow> real \<Rightarrow> analyzer \<Rightarrow> analyzer" where
  "handleScroll now scrollY this =
     (let sample = \<lparr>ss_position = scrollY, ss_timestamp = now,
                     ss_velocity = calculateScrollVelocity this\<rparr>
      in this\<lparr>scrollData := scrollData this @ [sample]\<rparr>)"

text \<open>
  \<^verbatim>\<open>handleKeyPress\<close> only adds an entry to the timeline, which is not part of the state
  here.
\<close>

definition handleKeyPress :: "analyzer \<Rightarrow> analyzer" where
  "handleKeyPress this = this"

text \<open>
  The four listeners of \<^verbatim>\<open>setupEventListeners\<close>. An event carries what its handler reads:
  the time of \<^verbatim>\<open>Date.now()\<close> in the handler, the window and the event object of a mouse
  move, the event object of a click, \<^verbatim>\<open>window.scrollY\<close> of a scroll. A session is the run
  of the handlers on the events of a page, in their order.
\<close>

datatype event =
    MouseMove int window mouse_event
  | Click int mouse_event
  | Scroll int real
  | KeyDown

fun dispatch :: "analyzer \<Rightarrow> event \<Rightarrow> analyzer" where
  "dispatch this (MouseMove now w e) = handleMouseMove now w e this"
| "dispatch this (Click now e) = handleClick now e this"
| "dispatch this (Scroll now scrollY) = handleScroll now scrollY this"
| "dispatch this KeyDown = handleKeyPress this"

definition session :: "event list \<Rightarrow> analyzer \<Rightarrow> analyzer" where
  "session events this = foldl dispatch this events"

text \<open>A run of pointer-move calls, each with its time, window and event.\<close>

definition moves :: "(int \<times> window \<times> mouse_event) list \<Rightarrow> analyzer \<Rightarrow> analyzer" where
  "moves calls this = foldl (\<lambda>s (now, w, event). handleMouseMove now w event s) this calls"

section \<open>The metric extractor\<close>

datatype js_error = TypeError

text \<open>
  \<^verbatim>\<open>xs.reduce(f)\<close> with no initial value: it starts from the first element, and throws a
  TypeError on an empty array. \<^verbatim>\<open>xs.reduce(f, z)\<close> is \<open>foldl f z xs\<close>.
\<close>

definition reduce1 :: "('a \<Rightarrow> 'a \<Rightarrow> 'a) \<Rightarrow> 'a list \<Rightarrow> js_error + 'a" where
  "reduce1 f xs = (case xs of [] \<Rightarrow> Inl TypeError | x # rest \<Rightarrow> Inr (foldl f x rest))"

text \<open>The loop of \<^verbatim>\<open>calculateMovementConsistency\<close>: one speed for each pair of neighbours.\<close>

fun stepSpeeds :: "movement_point list \<Rightarrow> jsnum list" where
  "stepSpeeds (p # q # rest) =
     (let dist = calculateDistance (mp_x p) (mp_y p) (mp_x q) (mp_y q);
          timeDiff = mp_time q - mp_time p
      in js_div dist (js_div (Fin (of_int timeDiff)) (Fin 1000)) # stepSpeeds (q # rest))"
| "stepSpeeds _ = []"

definition calculateMovementConsistency :: "analyzer \<Rightarrow> js_error + jsnum" where
  "calculateMovementConsistency this =
     (if length (movementPoints this) < 10 then Inr (Fin (1 / 2))
      else
        let speeds = stepSpeeds (movementPoints this)
        in case reduce1 js_add speeds of
             Inl e \<Rightarrow> Inl e
           | Inr summed \<Rightarrow>
               let avg = js_div summed (Fin (of_nat (length speeds)));
                   variance = js_div
                     (foldl (\<lambda>a b. js_add a (js_pow2 (js_sub b avg))) (Fin 0) speeds)
                     (Fin (of_nat (length speeds)))
               in Inr (js_max2 (Fin 0) (js_sub (Fin 1) (js_div variance (Fin 10000)))))"

text \<open>The loop of \<^verbatim>\<open>calculateDecisionSpeed\<close>, on the sorted timestamps.\<close>

fun intervalsOf :: "int list \<Rightarrow> int list" where
  "intervalsOf (a # b # rest) = (b - a) # intervalsOf (b # rest)"
| "intervalsOf _ = []"

text \<open>
  \<^verbatim>\<open>map\<close> builds a new array and \<^verbatim>\<open>sort((a, b) => a - b)\<close> puts it in ascending order.
  The timestamps are integers, and so are the intervals and their sum.
\<close>

definition calculateDecisionSpeed :: "analyzer \<Rightarrow> js_error + jsnum" where
  "calculateDecisionSpeed this =
     (if length (clickData this) < 2 then Inr (Fin (1 / 2))
      else
        let times = sort (map cs_timestamp (clickData this));
            intervals = intervalsOf times
        in case reduce1 (+) intervals of
             Inl e \<Rightarrow> Inl e
           | Inr summed \<Rightarrow>
               let avgInterval = js_div (Fin (of_int summed)) (Fin (of_nat (length intervals)))
               in Inr (js_min2 (Fin 1) (js_div (Fin 1000) avgInterval)))"

definition analyzeBehaviorPatterns :: "int \<Rightarrow> analyzer \<Rightarrow> js_error + patterns" where
  "analyzeBehaviorPatterns now this =
     (let avgSpeed' =
            (if length (mouseData this) > 0
             then js_div (foldl (\<lambda>sum point. js_add sum (ps_speed point)) (Fin 0) (mouseData this))
                    (Fin (of_nat (length (mouseData this))))
             else Fin 0);
          clickFrequency' = js_div (Fin (of_nat (length (clickData this))))
            (js_div (Fin (of_int (now - sessionStart this))) (Fin 60000));
          scrollIntensity' =
            (if length (scrollData this) > 0
             then js_max_list (map ss_velocity (scrollData this)) else Fin 0)
      in case calculateMovementConsistency this of
           Inl e \<Rightarrow> Inl e
         | Inr consistency \<Rightarrow>
             (case calculateDecisionSpeed this of
                Inl e \<Rightarrow> Inl e
              | Inr decision \<Rightarrow>
                  Inr \<lparr>avgSpeed = avgSpeed', clickFrequency = clickFrequency',
                       scrollIntensity = scrollIntensity',
                       movementConsistency = consistency, decisionSpeed = decision\<rparr>))"

section \<open>The metric extractor on a store of arrays\<close>

text \<open>
  The functions above take the buffers as values, so they cannot change them. A JavaScript
  array is an object: \<^verbatim>\<open>sort\<close> and \<^verbatim>\<open>push\<close> change the array they are called on, and
  whether that array is one of the buffers of \<^verbatim>\<open>this\<close> depends on which method made it.
  To state what the extractor does to the buffers, its three functions are written once more
  on a store of arrays. An address is an index of the store; a new array is appended to
  the store, so it never shares its address with an older one. The theorems of the last
  section show that both versions compute the same results.
\<close>

type_synonym addr = nat

text \<open>
  The arrays of the program, by what they hold. A \<open>TimeArr\<close> holds Numbers that are
  integers: timestamps and their differences.
\<close>

datatype jsarray =
    MouseArr "pointer_sample list"
  | ClickArr "click_sample list"
  | ScrollArr "scroll_sample list"
  | MoveArr "movement_point list"
  | NumArr "jsnum list"
  | TimeArr "int list"

type_synonym store = "jsarray list"

text \<open>A computation runs on a store and returns a value or throws, and leaves a store.\<close>

type_synonym 'a comp = "store \<Rightarrow> (js_error + 'a) \<times> store"

definition ret :: "'a \<Rightarrow> 'a comp" where
  "ret x = (\<lambda>st. (Inr x, st))"

definition throw :: "js_error \<Rightarrow> 'a comp" where
  "throw e = (\<lambda>st. (Inl e, st))"

definition andThen :: "'a comp \<Rightarrow> ('a \<Rightarrow> 'b comp) \<Rightarrow> 'b comp" where
  "andThen c f =
     (\<lambda>st. case c st of (Inl e, st') \<Rightarrow> (Inl e, st') | (Inr x, st') \<Rightarrow> f x st')"

text \<open>
  An array literal, and what \<^verbatim>\<open>map\<close> returns, is a new array. Reading through an address
  that holds no array, or an array of another kind than the method expects, is the
  TypeError that a method call on a wrong value throws.
\<close>

definition newArray :: "jsarray \<Rightarrow> addr comp" where
  "newArray v = (\<lambda>st. (Inr (length st), st @ [v]))"

definition getArray :: "addr \<Rightarrow> jsarray comp" where
  "getArray a = (\<lambda>st. if a < length st then (Inr (st ! a), st) else (Inl TypeError, st))"

definition setArray :: "addr \<Rightarrow> jsarray \<Rightarrow> unit comp" where
  "setArray a v =
     (\<lambda>st. if a < length st then (Inr (), st[a := v]) else (Inl TypeError, st))"

definition getMouse :: "addr \<Rightarrow> pointer_sample list comp" where
  "getMouse a =
     andThen (getArray a) (\<lambda>v. case v of MouseArr xs \<Rightarrow> ret xs | _ \<Rightarrow> throw TypeError)"

definition getClicks :: "addr \<Rightarrow> click_sample list comp" where
  "getClicks a =
     andThen (getArray a) (\<lambda>v. case v of ClickArr xs \<Rightarrow> ret xs | _ \<Rightarrow> throw TypeError)"

definition getScrolls :: "addr \<Rightarrow> scroll_sample list comp" where
  "getScrolls a =
     andThen (getArray a) (\<lambda>v. case v of ScrollArr xs \<Rightarrow> ret xs | _ \<Rightarrow> throw TypeError)"

definition getMoves :: "addr \<Rightarrow> movement_point list comp" where
  "getMoves a =
     andThen (getArray a) (\<lambda>v. case v of MoveArr xs \<Rightarrow> ret xs | _ \<Rightarrow> throw TypeError)"

definition getNums :: "addr \<Rightarrow> jsnum list comp" where
  "getNums a =
     andThen (getArray a) (\<lambda>v. case v of NumArr xs \<Rightarrow> ret xs | _ \<Rightarrow> throw TypeError)"

definition getTimes :: "addr \<Rightarrow> int list comp" where
  "getTimes a =
     andThen (getArray a) (\<lambda>v. case v of TimeArr xs \<Rightarrow> ret xs | _ \<Rightarrow> throw TypeError)"

text \<open>\<^verbatim>\<open>push\<close> and \<^verbatim>\<open>sort\<close> write to the array they are called on; \<^verbatim>\<open>sort\<close> returns it.\<close>

definition pushNum :: "addr \<Rightarrow> jsnum \<Rightarrow> unit comp" where
  "pushNum a x = andThen (getNums a) (\<lambda>xs. setArray a (NumArr (xs @ [x])))"

definition pushTime :: "addr \<Rightarrow> int \<Rightarrow> unit comp" where
  "pushTime a x = andThen (getTimes a) (\<lambda>xs. setArray a (TimeArr (xs @ [x])))"

definition sortTimes :: "addr \<Rightarrow> addr comp" where
  "sortTimes a =
     andThen (getTimes a) (\<lambda>xs. andThen (setArray a (TimeArr (sort xs))) (\<lambda>_. ret a))"

text \<open>
  A counting loop, over the values its index takes. The two loops of the extractor run
  from 1 up to the length of an array that their bodies do not write to (the bodies push
  to an array made just before the loop), so the bound is read when the loop starts. The
  elements are read in each round, at indices below that length.
\<close>

fun forEach :: "nat list \<Rightarrow> (nat \<Rightarrow> unit comp) \<Rightarrow> unit comp" where
  "forEach [] body = ret ()"
| "forEach (i # is) body = andThen (body i) (\<lambda>_. forEach is body)"

text \<open>The fields of \<^verbatim>\<open>this\<close> that the extractor reads: four arrays and a number.\<close>

record this_refs =
  ref_mouseData :: addr
  ref_clickData :: addr
  ref_scrollData :: addr
  ref_movementPoints :: addr
  val_sessionStart :: int

definition calculateMovementConsistency_st :: "this_refs \<Rightarrow> jsnum comp" where
  "calculateMovementConsistency_st this =
     andThen (getMoves (ref_movementPoints this)) (\<lambda>points.
       if length points < 10 then ret (Fin (1 / 2))
       else
         andThen (newArray (NumArr [])) (\<lambda>speeds.
         andThen (forEach [1 ..< length points] (\<lambda>i.
           andThen (getMoves (ref_movementPoints this)) (\<lambda>pts.
             let dist = calculateDistance (mp_x (pts ! (i - 1))) (mp_y (pts ! (i - 1)))
                          (mp_x (pts ! i)) (mp_y (pts ! i));
                 timeDiff = mp_time (pts ! i) - mp_time (pts ! (i - 1))
             in pushNum speeds (js_div dist (js_div (Fin (of_int timeDiff)) (Fin 1000)))))) (\<lambda>_.
         andThen (getNums speeds) (\<lambda>xs.
           case reduce1 js_add xs of
             Inl e \<Rightarrow> throw e
           | Inr summed \<Rightarrow>
               let avg = js_div summed (Fin (of_nat (length xs)));
                   variance = js_div
                     (foldl (\<lambda>a b. js_add a (js_pow2 (js_sub b avg))) (Fin 0) xs)
                     (Fin (of_nat (length xs)))
               in ret (js_max2 (Fin 0) (js_sub (Fin 1) (js_div variance (Fin 10000))))))))"

definition calculateDecisionSpeed_st :: "this_refs \<Rightarrow> jsnum comp" where
  "calculateDecisionSpeed_st this =
     andThen (getClicks (ref_clickData this)) (\<lambda>clickData.
       if length clickData < 2 then ret (Fin (1 / 2))
       else
         andThen (newArray (TimeArr (map cs_timestamp clickData))) (\<lambda>mapped.
         andThen (sortTimes mapped) (\<lambda>times.
         andThen (newArray (TimeArr [])) (\<lambda>intervals.
         andThen (getTimes times) (\<lambda>ts0.
         andThen (forEach [1 ..< length ts0] (\<lambda>i.
           andThen (getTimes times) (\<lambda>ts. pushTime intervals (ts ! i - ts ! (i - 1))))) (\<lambda>_.
         andThen (getTimes intervals) (\<lambda>xs.
           case reduce1 (+) xs of
             Inl e \<Rightarrow> throw e
           | Inr summed \<Rightarrow>
               let avgInterval = js_div (Fin (of_int summed)) (Fin (of_nat (length xs)))
               in ret (js_min2 (Fin 1) (js_div (Fin 1000) avgInterval)))))))))"

definition analyzeBehaviorPatterns_st :: "int \<Rightarrow> this_refs \<Rightarrow> patterns comp" where
  "analyzeBehaviorPatterns_st now this =
     andThen (getMouse (ref_mouseData this)) (\<lambda>mouseData.
     let avgSpeed' =
           (if length mouseData > 0
            then js_div (foldl (\<lambda>sum point. js_add sum (ps_speed point)) (Fin 0) mouseData)
                   (Fin (of_nat (length mouseData)))
            else Fin 0)
     in
     andThen (getClicks (ref_clickData this)) (\<lambda>clickData.
     let clickFrequency' = js_div (Fin (of_nat (length clickData)))
           (js_div (Fin (of_int (now - val_sessionStart this))) (Fin 60000))
     in
     andThen (getScrolls (ref_scrollData this)) (\<lambda>scrollData.
     andThen (if length scrollData > 0
              then andThen (newArray (NumArr (map ss_velocity scrollData))) (\<lambda>velocities.
                   andThen (getNums velocities) (\<lambda>vs. ret (js_max_list vs)))
              else ret (Fin 0)) (\<lambda>scrollIntensity'.
     andThen (calculateMovementConsistency_st this) (\<lambda>consistency.
     andThen (calculateDecisionSpeed_st this) (\<lambda>decision.
       ret \<lparr>avgSpeed = avgSpeed', clickFrequency = clickFrequency',
            scrollIntensity = scrollIntensity',
            movementConsistency = consistency, decisionSpeed = decision\<rparr>))))))"

text \<open>
  The store holds, at the addresses of \<^verbatim>\<open>this\<close>, the buffers of the analyzer \<open>s\<close>, sample
  for sample and in the same order.
\<close>

definition buffersAt :: "this_refs \<Rightarrow> store \<Rightarrow> analyzer \<Rightarrow> bool" where
  "buffersAt this st s =
     (ref_mouseData this < length st \<and> st ! ref_mouseData this = MouseArr (mouseData s) \<and>
      ref_clickData this < length st \<and> st ! ref_clickData this = ClickArr (clickData s) \<and>
      ref_scrollData this < length st \<and> st ! ref_scrollData this = ScrollArr (scrollData s) \<and>
      ref_movementPoints this < length st \<and>
      st ! ref_movementPoints this = MoveArr (movementPoints s) \<and>
      val_sessionStart this = sessionStart s)"

text \<open>The arrays one run of the extractor makes, in the order in which it makes them.\<close>

definition scratchArrays :: "analyzer \<Rightarrow> store" where
  "scratchArrays s =
     (if length (scrollData s) > 0 then [NumArr (map ss_velocity (scrollData s))] else []) @
     (if length (movementPoints s) < 10 then []
      else [NumArr (stepSpeeds (movementPoints s))]) @
     (if length (clickData s) < 2 then []
      else [TimeArr (sort (map cs_timestamp (clickData s))),
            TimeArr (intervalsOf (sort (map cs_timestamp (clickData s))))])"

section \<open>The metrics as the specification words them\<close>

text \<open>
  Decision speed: sort the click timestamps, take the intervals between neighbours and
  their mean \<open>m\<close>, and return \<open>min(1, 1000/m)\<close>; with fewer than two clicks, 0.5. For
  \<open>m = 0\<close> the quotient is \<open>+Infinity\<close> and the minimum is 1.
\<close>

definition interClickIntervals :: "int list \<Rightarrow> int list" where
  "interClickIntervals ts =
     (let sorted = sort ts in map (\<lambda>(a, b). b - a) (zip sorted (tl sorted)))"

definition meanInterval :: "int list \<Rightarrow> real" where
  "meanInterval ts =
     real_of_int (sum_list (interClickIntervals ts)) / real (length (interClickIntervals ts))"

definition spec_decisionSpeed :: "int list \<Rightarrow> jsnum" where
  "spec_decisionSpeed ts =
     (if length ts < 2 then Fin (1 / 2)
      else if meanInterval ts = 0 then Fin 1
      else Fin (min 1 (1000 / meanInterval ts)))"


definition variance :: "real list \<Rightarrow> real" where
  "variance xs =
     (let avg = sum_list xs / real (length xs)
      in (\<Sum>x\<leftarrow>xs. (x - avg)\<^sup>2) / real (length xs))"





text \<open>The speed that one round of the loop of \<^verbatim>\<open>calculateMovementConsistency\<close> pushes.\<close>

definition speedBetween :: "movement_point \<Rightarrow> movement_point \<Rightarrow> jsnum" where
  "speedBetween p q =
     js_div (calculateDistance (mp_x p) (mp_y p) (mp_x q) (mp_y q))
       (js_div (Fin (of_int (mp_time q - mp_time p))) (Fin 1000))"

section \<open>Predicates and sample inputs of the statements\<close>

text \<open>
  Each timestamp of the list is more than 50 ms after the one before it, the first one more
  than 50 ms after \<open>t\<close>.
\<close>

fun spacedOver50 :: "int \<Rightarrow> int list \<Rightarrow> bool" where
  "spacedOver50 t [] = True"
| "spacedOver50 t (u # us) = (u - t > 50 \<and> spacedOver50 u us)"

text \<open>The click events, and the events whose window has a width and a height.\<close>

fun isClick :: "event \<Rightarrow> bool" where
  "isClick (Click _ _) = True"
| "isClick _ = False"


text \<open>A window of 1000 by 500 pixels, and a mouse event at a position, with no pressure.\<close>

definition w0 :: window where
  "w0 = \<lparr>innerWidth = 1000, innerHeight = 500\<rparr>"

definition ev :: "real \<Rightarrow> real \<Rightarrow> mouse_event" where
  "ev x y = \<lparr>clientX = x, clientY = y, pressure = None\<rparr>"




text \<open>
  An analyzer with two clicks whose timestamps are not in ascending order and one scroll
  sample, and a store that holds its four buffers at the addresses 0 to 3.
\<close>

definition clickAt :: "int \<Rightarrow> click_sample" where
  "clickAt t = \<lparr>cs_x = 0, cs_y = 0, cs_timestamp = t, cs_pressure = Fin (1 / 2)\<rparr>"

definition this0 :: this_refs where
  "this0 = \<lparr>ref_mouseData = 0, ref_clickData = 1, ref_scrollData = 2, ref_movementPoints = 3,
     val_sessionStart = 0\<rparr>"

definition s0 :: analyzer where
  "s0 = (init 0 0)\<lparr>clickData := [clickAt 500, clickAt 0],
     scrollData := [\<lparr>ss_position = 0, ss_timestamp = 10, ss_velocity = Fin 0\<rparr>]\<rparr>"

definition st0 :: store where
  "st0 = [MouseArr (mouseData s0), ClickArr (clickData s0), ScrollArr (scrollData s0),
     MoveArr (movementPoints s0)]"

section \<open>Basic facts\<close>

lemma js_gt_Fin [simp]: "js_gt (Fin a) (Fin b) = (b < a)"
  by (simp add: js_gt_def)

lemma moves_Nil [simp]: "moves [] s = s"
  by (simp add: moves_def)

lemma moves_Cons [simp]:
  "moves ((now, w, e) # cs) s = moves cs (handleMouseMove now w e s)"
  by (simp add: moves_def)

lemma session_Nil [simp]: "session [] s = s"
  by (simp add: session_def)

lemma session_Cons [simp]: "session (e # es) s = session es (dispatch s e)"
  by (simp add: session_def)

lemma session_snoc [simp]: "session (es @ [e]) s = dispatch (session es s) e"
  by (simp add: session_def)

section \<open>The classifier on given snapshots\<close>

lemma profile_has_balanced_iff:
  "((Balanced, confident) \<in> set (generatePersonalityProfile p)) = no_rule_fires p"
  by (auto simp: generatePersonalityProfile_def no_rule_fires_def Let_def)

lemma profile_eq_balanced_iff:
  "(generatePersonalityProfile p = [(Balanced, confident)]) = no_rule_fires p"
  by (auto simp: generatePersonalityProfile_def no_rule_fires_def Let_def)

text \<open>
  C1, as the specification states it, fails: on the neutral snapshot the average speed 0 is
  below 200, so the second rule fires and the classifier does not answer with the fallback
  trait.
\<close>

theorem neutral_not_balanced:
  "classify neutral \<noteq> ([(Balanced, confident)], AdaptiveBalanced)"
  by (simp add: classify_def neutral_def generatePersonalityProfile_def generateInsight_def)

text \<open>
  C1, amended: on the neutral snapshot (average speed 0, click frequency 0, consistency 0.5,
  decision speed 0.5, scroll intensity 0) the classifier emits exactly the one trait
  Attentive / cautious, and the default (adaptive, balanced) insight. The fallback trait
  Balanced / confident is the whole profile exactly when no threshold rule fires, and it is
  in the profile only then.
\<close>

theorem neutral_classified:
  "classify neutral = ([(Attentive, cautious)], AdaptiveBalanced) \<and>
   (\<forall>p. (generatePersonalityProfile p = [(Balanced, confident)]) = no_rule_fires p) \<and>
   (\<forall>p. ((Balanced, confident) \<in> set (generatePersonalityProfile p)) = no_rule_fires p)"
  by (simp add: profile_has_balanced_iff profile_eq_balanced_iff)
     (simp add: classify_def neutral_def generatePersonalityProfile_def generateInsight_def)

text \<open>
  C7: with an average speed of 650 and 9 clicks per minute, whatever the other metrics are,
  the insight is the one of the first rule (energetic, goal-driven) and the profile holds
  Decisive / confident and Active / impulsive; with the other metrics at their neutral
  defaults these two are the whole profile.
\<close>

theorem fast_clicker_classified:
  "generateInsight (p\<lparr>avgSpeed := Fin 650, clickFrequency := Fin 9\<rparr>) ts = EnergeticGoalDriven \<and>
   (Decisive, confident)
     \<in> set (generatePersonalityProfile (p\<lparr>avgSpeed := Fin 650, clickFrequency := Fin 9\<rparr>)) \<and>
   (Active, impulsive)
     \<in> set (generatePersonalityProfile (p\<lparr>avgSpeed := Fin 650, clickFrequency := Fin 9\<rparr>)) \<and>
   classify (neutral\<lparr>avgSpeed := Fin 650, clickFrequency := Fin 9\<rparr>) =
     ([(Decisive, confident), (Active, impulsive)], EnergeticGoalDriven)"
  by (simp add: classify_def neutral_def generatePersonalityProfile_def generateInsight_def Let_def)

section \<open>The rate gate of pointer moves\<close>

lemma handleMouseMove_rejected:
  "now - lastMoveTime s \<le> 50 \<Longrightarrow> handleMouseMove now w e s = s"
  by (simp add: handleMouseMove_def)

lemma handleMouseMove_accepted:
  assumes "now - lastMoveTime s > 50"
  shows "lastMoveTime (handleMouseMove now w e s) = now"
    and "lastMousePosition (handleMouseMove now w e s) = (clientX e, clientY e)"
    and "map ps_timestamp (mouseData (handleMouseMove now w e s)) =
         map ps_timestamp (mouseData s) @ [now]"
    and "map (\<lambda>p. (ps_x p, ps_y p)) (mouseData (handleMouseMove now w e s)) =
         map (\<lambda>p. (ps_x p, ps_y p)) (mouseData s) @ [(clientX e, clientY e)]"
    and "map mp_time (movementPoints (handleMouseMove now w e s)) =
         map mp_time (movementPoints s) @ [now]"
  using assms by (simp_all add: handleMouseMove_def Let_def)

lemma moves_all_rejected:
  "\<forall>c \<in> set cs. fst c - lastMoveTime s \<le> 50 \<Longrightarrow> moves cs s = s"
proof (induction cs arbitrary: s)
  case Nil
  show ?case by simp
next
  case (Cons c cs)
  obtain now w e where c: "c = (now, w, e)" by (cases c)
  from Cons.prems have "now - lastMoveTime s \<le> 50" by (simp add: c)
  then have "handleMouseMove now w e s = s" by (rule handleMouseMove_rejected)
  with Cons show ?case by (simp add: c)
qed

lemma moves_all_accepted:
  "spacedOver50 (lastMoveTime s) (map fst cs) \<Longrightarrow>
   map ps_timestamp (mouseData (moves cs s)) = map ps_timestamp (mouseData s) @ map fst cs \<and>
   map (\<lambda>p. (ps_x p, ps_y p)) (mouseData (moves cs s)) =
     map (\<lambda>p. (ps_x p, ps_y p)) (mouseData s) @ map (\<lambda>(now, w, e). (clientX e, clientY e)) cs \<and>
   map mp_time (movementPoints (moves cs s)) = map mp_time (movementPoints s) @ map fst cs \<and>
   lastMoveTime (moves cs s) = last (lastMoveTime s # map fst cs) \<and>
   lastMousePosition (moves cs s) =
     last (lastMousePosition s # map (\<lambda>(now, w, e). (clientX e, clientY e)) cs)"
proof (induction cs arbitrary: s)
  case Nil
  show ?case by simp
next
  case (Cons c cs)
  obtain now w e where c: "c = (now, w, e)" by (cases c)
  from Cons.prems have acc: "now - lastMoveTime s > 50" and rest: "spacedOver50 now (map fst cs)"
    by (simp_all add: c)
  note h = handleMouseMove_accepted [OF acc, of w e]
  from rest have "spacedOver50 (lastMoveTime (handleMouseMove now w e s)) (map fst cs)"
    by (simp add: h)
  from Cons.IH [OF this] show ?case
    by (simp add: c h)
qed

text \<open>
  C3, as the specification states it, fails: the gate measures from the last accepted call,
  not from the call before. Of three calls 40 ms apart, the first made 100 ms after the
  analyzer was built, the first and the third are accepted.
\<close>

theorem gate_counterexample:
  "(140::int) - 100 \<le> 50 \<and> (180::int) - 140 \<le> 50 \<and>
   map ps_timestamp
     (mouseData (moves [(100, w0, ev 0 0), (140, w0, ev 0 0), (180, w0, ev 0 0)] (init 0 0)))
     = [100, 180]"
  by (simp add: handleMouseMove_def init_def Let_def)

text \<open>
  C3, amended: a pointer-move call is accepted exactly when it comes more than 50 ms after
  the last accepted call (after the construction of the analyzer, for the first one).
  So, when a call is accepted and every later call of a sequence comes at most 50 ms after
  it, that call changes the state and the later ones are no-ops; a call that comes at most
  50 ms after the last accepted one is a no-op; and when each call of a sequence comes more
  than 50 ms after the call before it (the first more than 50 ms after the last accepted
  time), every call is accepted: each appends one pointer sample and one movement point
  with its position and time, and the last accepted time and position are those of the
  last call.
\<close>

theorem gate_amended:
  "(50 < now - lastMoveTime s \<and> (\<forall>c \<in> set cs. fst c - now \<le> 50)
      \<longrightarrow> moves ((now, w, e) # cs) s = handleMouseMove now w e s \<and>
          handleMouseMove now w e s \<noteq> s) \<and>
   (now - lastMoveTime s \<le> 50 \<longrightarrow> handleMouseMove now w e s = s) \<and>
   (spacedOver50 (lastMoveTime s) (map fst calls) \<longrightarrow>
      map ps_timestamp (mouseData (moves calls s)) =
        map ps_timestamp (mouseData s) @ map fst calls \<and>
      map (\<lambda>p. (ps_x p, ps_y p)) (mouseData (moves calls s)) =
        map (\<lambda>p. (ps_x p, ps_y p)) (mouseData s) @
        map (\<lambda>(now, w, e). (clientX e, clientY e)) calls \<and>
      map mp_time (movementPoints (moves calls s)) =
        map mp_time (movementPoints s) @ map fst calls \<and>
      lastMoveTime (moves calls s) = last (lastMoveTime s # map fst calls) \<and>
      lastMousePosition (moves calls s) =
        last (lastMousePosition s # map (\<lambda>(now, w, e). (clientX e, clientY e)) calls))"
proof (intro conjI impI)
  assume a: "50 < now - lastMoveTime s \<and> (\<forall>c \<in> set cs. fst c - now \<le> 50)"
  then have acc: "50 < now - lastMoveTime s" by simp
  have t: "lastMoveTime (handleMouseMove now w e s) = now"
    by (rule handleMouseMove_accepted(1) [OF acc])
  from a have "\<forall>c \<in> set cs. fst c - lastMoveTime (handleMouseMove now w e s) \<le> 50"
    by (simp add: t)
  then show "moves ((now, w, e) # cs) s = handleMouseMove now w e s"
    by (simp add: moves_all_rejected)
  show "handleMouseMove now w e s \<noteq> s"
  proof
    assume "handleMouseMove now w e s = s"
    then have "lastMoveTime s = now" using t by simp
    with acc show False by simp
  qed
next
  assume "now - lastMoveTime s \<le> 50"
  then show "handleMouseMove now w e s = s" by (rule handleMouseMove_rejected)
qed (simp_all add: moves_all_accepted)

theorem gate_amended_witness:
  "50 < (100::int) - lastMoveTime (init 0 0) \<and> (140::int) - 100 \<le> 50 \<and>
   moves [(100, w0, ev 3 4), (140, w0, ev 5 5)] (init 0 0) =
     handleMouseMove 100 w0 (ev 3 4) (init 0 0) \<and>
   map ps_speed (mouseData (moves [(100, w0, ev 3 4), (140, w0, ev 5 5)] (init 0 0))) = [Fin 50] \<and>
   (30::int) - lastMoveTime (init 0 0) \<le> 50 \<and>
   handleMouseMove 30 w0 (ev 3 4) (init 0 0) = init 0 0 \<and>
   spacedOver50 (lastMoveTime (init 0 0)) (map fst [(100, w0, ev 3 4), (151, w0, ev 5 5)]) \<and>
   map ps_timestamp (mouseData (moves [(100, w0, ev 3 4), (151, w0, ev 5 5)] (init 0 0)))
     = [100, 151]"
  using gate_amended [of 100 "init 0 0" "[(140, w0, ev 5 5)]" w0 "ev 3 4"
      "[(100, w0, ev 3 4), (151, w0, ev 5 5)]"]
    gate_amended [of 30 "init 0 0" "[]" w0 "ev 3 4" "[]"]
  by (simp add: init_def handleMouseMove_def Let_def calculateDistance_def js_sub_def
      w0_def ev_def)

section \<open>Scroll samples\<close>

text \<open>
  C2 on the code: the velocity stored with a new scroll sample is the one of
  \<^verbatim>\<open>calculateScrollVelocity\<close> on the buffer before the sample is pushed, so it is the
  velocity between the two samples before the new one and does not depend on the new
  sample. Offsets 0, 100, 100 at 0, 1000 and 2000 ms are stored with velocities 0, 0, 100.
\<close>

theorem scroll_velocity_lags:
  "map ss_velocity
     (scrollData (session [Scroll 0 0, Scroll 1000 100, Scroll 2000 100] (init 0 0)))
     = [Fin 0, Fin 0, Fin 100] \<and>
   ss_velocity (last (scrollData (handleScroll now y s))) = calculateScrollVelocity s"
  by (simp add: handleScroll_def calculateScrollVelocity_def init_def js_sub_def Let_def)

section \<open>Click samples and the heatmap\<close>

lemma js_or_nonzero: "js_or v (Fin (1 / 2)) \<noteq> Fin 0"
  by (cases v) (auto simp: js_or_def js_truthy_def split: jsnum.splits)

lemma clickData_handleClick:
  "clickData (handleClick now e s) = clickData s @
     [\<lparr>cs_x = clientX e, cs_y = clientY e, cs_timestamp = now,
       cs_pressure = js_or (pressure e) (Fin (1 / 2))\<rparr>]"
  by (simp add: handleClick_def updateClickHeatmap_def Let_def)

lemma clickData_dispatch:
  "clickData (dispatch s e) =
     (case e of
        Click now e' \<Rightarrow> clickData s @
          [\<lparr>cs_x = clientX e', cs_y = clientY e', cs_timestamp = now,
            cs_pressure = js_or (pressure e') (Fin (1 / 2))\<rparr>]
      | _ \<Rightarrow> clickData s)"
  by (cases e)
    (simp_all add: clickData_handleClick handleMouseMove_def handleScroll_def
      handleKeyPress_def Let_def)

lemma session_pressure_nonzero:
  "\<forall>c \<in> set (clickData s). cs_pressure c \<noteq> Fin 0 \<Longrightarrow>
   \<forall>c \<in> set (clickData (session events s)). cs_pressure c \<noteq> Fin 0"
proof (induction events rule: rev_induct)
  case Nil
  then show ?case by simp
next
  case (snoc e events)
  then show ?case
    by (simp add: clickData_dispatch js_or_nonzero split: event.splits)
qed

text \<open>
  C10: the pressure stored with a click is 0.5 when the event has no pressure, when its
  pressure is 0 and when it is NaN, and the pressure of the event otherwise; so no click
  sample of an analyzer, after any events of a session, holds the pressure 0.
\<close>

theorem click_pressure_default:
  "cs_pressure (last (clickData (handleClick now e s))) =
     (case pressure e of
        None \<Rightarrow> Fin (1 / 2)
      | Some a \<Rightarrow> if a = Fin 0 \<or> a = NaN then Fin (1 / 2) else a) \<and>
   (\<forall>c \<in> set (clickData (session events (init t u))). cs_pressure c \<noteq> Fin 0)"
proof
  show "cs_pressure (last (clickData (handleClick now e s))) =
     (case pressure e of
        None \<Rightarrow> Fin (1 / 2)
      | Some a \<Rightarrow> if a = Fin 0 \<or> a = NaN then Fin (1 / 2) else a)"
    by (auto simp: clickData_handleClick js_or_def js_truthy_def
        split: option.splits jsnum.splits)
  have "\<forall>c \<in> set (clickData (init t u)). cs_pressure c \<noteq> Fin 0"
    by (simp add: init_def)
  then show "\<forall>c \<in> set (clickData (session events (init t u))). cs_pressure c \<noteq> Fin 0"
    by (rule session_pressure_nonzero)
qed

theorem click_pressure_default_witness:
  "map cs_pressure (clickData (session
      [Click 10 \<lparr>clientX = 1, clientY = 2, pressure = Some (Fin 0)\<rparr>,
       Scroll 15 40,
       Click 20 \<lparr>clientX = 1, clientY = 2, pressure = Some (Fin (3 / 4))\<rparr>,
       KeyDown,
       Click 30 \<lparr>clientX = 1, clientY = 2, pressure = None\<rparr>] (init 0 0)))
     = [Fin (1 / 2), Fin (3 / 4), Fin (1 / 2)] \<and>
   Fin 0 \<notin> cs_pressure ` set (clickData (session
      [Click 10 \<lparr>clientX = 1, clientY = 2, pressure = Some (Fin 0)\<rparr>,
       Scroll 15 40,
       Click 20 \<lparr>clientX = 1, clientY = 2, pressure = Some (Fin (3 / 4))\<rparr>,
       KeyDown,
       Click 30 \<lparr>clientX = 1, clientY = 2, pressure = None\<rparr>] (init 0 0)))"
  using click_pressure_default [of 10 "\<lparr>clientX = 1, clientY = 2, pressure = Some (Fin 0)\<rparr>"
      "init 0 0"
      "[Click 10 \<lparr>clientX = 1, clientY = 2, pressure = Some (Fin 0)\<rparr>,
        Scroll 15 40,
        Click 20 \<lparr>clientX = 1, clientY = 2, pressure = Some (Fin (3 / 4))\<rparr>,
        KeyDown,
        Click 30 \<lparr>clientX = 1, clientY = 2, pressure = None\<rparr>]" 0 0]
  by (auto simp: clickData_handleClick clickData_dispatch handleScroll_def handleKeyPress_def
      js_or_def js_truthy_def init_def)

lemma foldl_appendCapped:
  "length xs \<le> 50 \<Longrightarrow>
   foldl appendCapped xs cs = drop (length xs + length cs - 50) (xs @ cs)"
proof (induction cs arbitrary: xs)
  case Nil
  then show ?case by simp
next
  case (Cons c cs)
  show ?case
  proof (cases "length xs = 50")
    case True
    then have xs: "xs \<noteq> []" by auto
    have step: "appendCapped xs c = tl xs @ [c]"
      using True xs by (simp add: appendCapped_def)
    have "length (tl xs @ [c]) \<le> 50" using True by simp
    from Cons.IH [OF this] True xs show ?thesis
      by (simp add: step drop_Suc tl_append2)
  next
    case False
    with Cons.prems have lt: "length xs < 50" by simp
    then have step: "appendCapped xs c = xs @ [c]"
      by (simp add: appendCapped_def)
    have "length (xs @ [c]) \<le> 50" using lt by simp
    from Cons.IH [OF this] show ?thesis
      by (simp add: step)
  qed
qed

lemma heatmap_handleClick:
  "heatmap (handleClick now e s) =
   appendCapped (heatmap s) (newCell (Suc (length (clickData s))))"
  by (simp add: handleClick_def updateClickHeatmap_def Let_def)

lemma heatmap_dispatch:
  "heatmap (dispatch s e) =
     (if isClick e then appendCapped (heatmap s) (newCell (Suc (length (clickData s))))
      else heatmap s)"
  by (cases e)
    (simp_all add: heatmap_handleClick handleMouseMove_def handleScroll_def
      handleKeyPress_def Let_def)

lemma length_clickData_session:
  "length (clickData (session events s)) =
   length (clickData s) + length (filter isClick events)"
proof (induction events rule: rev_induct)
  case Nil
  show ?case by simp
next
  case (snoc e events)
  then show ?case
    by (simp add: clickData_dispatch split: event.splits)
qed

lemma heatmap_session:
  "heatmap (session events s) =
   foldl appendCapped (heatmap s)
     (map newCell [Suc (length (clickData s)) ..<
        Suc (length (clickData s) + length (filter isClick events))])"
proof (induction events rule: rev_induct)
  case Nil
  show ?case by simp
next
  case (snoc e events)
  show ?case
    by (cases "isClick e") (simp_all add: heatmap_dispatch snoc.IH length_clickData_session)
qed

text \<open>
  C8: appending nodes one by one to an empty heatmap, each append followed by the removal
  of the first child when more than 50 are there, leaves the last 50 of the nodes appended
  (all of them while there are at most 50), so never more than 50, and the last 50 of 60.
  For the analyzer: after any events of a session on a new analyzer the heatmap holds the
  cells of the last 50 clicks, in the order of the clicks.
\<close>

theorem heatmap_capped:
  "foldl appendCapped [] cs = drop (length cs - 50) cs \<and>
   length (foldl appendCapped [] cs) \<le> 50 \<and>
   (length cs = 60 \<longrightarrow> foldl appendCapped [] cs = drop 10 cs) \<and>
   heatmap (session events (init t u)) =
     drop (length (filter isClick events) - 50)
       (map newCell [1 ..< Suc (length (filter isClick events))]) \<and>
   length (heatmap (session events (init t u))) \<le> 50"
proof -
  have a: "foldl appendCapped [] cs = drop (length cs - 50) cs"
    using foldl_appendCapped [of "[]" cs] by simp
  have i: "heatmap (init t u) = []" "length (clickData (init t u)) = 0"
    by (simp_all add: init_def)
  have b: "heatmap (session events (init t u)) =
     drop (length (filter isClick events) - 50)
       (map newCell [1 ..< Suc (length (filter isClick events))])"
    using foldl_appendCapped [of "[]"
        "map newCell [1 ..< Suc (length (filter isClick events))]"]
    unfolding heatmap_session i by (simp del: upt_Suc)
  have c: "length (heatmap (session events (init t u))) \<le> 50"
    unfolding b by (simp del: upt_Suc)
  show ?thesis
    using b c by (simp add: a)
qed

theorem heatmap_capped_witness:
  "length [1 ..< 61 :: nat] = 60 \<and> foldl appendCapped [] [1 ..< 61 :: nat] = [11 ..< 61]"
  using heatmap_capped [of "[1 ..< 61 :: nat]" "[]" 0 0] by simp

section \<open>Decision speed\<close>

lemma intervalsOf_zip: "intervalsOf xs = map (\<lambda>(a, b). b - a) (zip xs (tl xs))"
  by (induction xs rule: intervalsOf.induct) simp_all

lemma length_intervalsOf [simp]: "length (intervalsOf xs) = length xs - 1"
  by (induction xs rule: intervalsOf.induct) simp_all

lemma foldl_plus_sum_list: "foldl (+) (x::int) xs = x + sum_list xs"
  by (induction xs arbitrary: x) simp_all

lemma reduce1_plus: "xs \<noteq> [] \<Longrightarrow> reduce1 (+) xs = Inr (sum_list (xs::int list))"
  by (cases xs) (simp_all add: reduce1_def foldl_plus_sum_list)

lemma sum_intervalsOf: "xs \<noteq> [] \<Longrightarrow> sum_list (intervalsOf xs) = last xs - hd xs"
  by (induction xs rule: intervalsOf.induct) simp_all

lemma sum_intervalsOf_sorted: "sorted xs \<Longrightarrow> 0 \<le> sum_list (intervalsOf xs)"
proof (cases xs)
  case Nil
  then show ?thesis by simp
next
  case (Cons a as)
  assume "sorted xs"
  then have "hd xs \<le> last xs" using Cons by (auto simp: last_conv_nth)
  then show ?thesis using Cons by (simp add: sum_intervalsOf)
qed

lemma min_one_div:
  "js_min2 (Fin 1) (js_div (Fin 1000) (Fin m)) =
     (if m = 0 then Fin 1 else Fin (min 1 (1000 / m)))"
  by (auto simp: min_def)

lemma decisionSpeed_many:
  assumes "\<not> length (clickData s) < 2"
  shows "calculateDecisionSpeed s =
    Inr (js_min2 (Fin 1)
      (js_div (Fin 1000) (Fin (meanInterval (map cs_timestamp (clickData s))))))"
proof -
  let ?ts = "sort (map cs_timestamp (clickData s))"
  have len: "length (intervalsOf ?ts) = length (clickData s) - 1"
    by simp
  with assms have pos: "0 < length (intervalsOf ?ts)"
    by simp
  then have ne: "intervalsOf ?ts \<noteq> []"
    by (simp del: length_intervalsOf)
  from pos have n: "real (length (intervalsOf ?ts)) \<noteq> 0"
    by (simp del: length_intervalsOf)
  show ?thesis
    using assms n
    by (simp add: calculateDecisionSpeed_def Let_def reduce1_plus [OF ne] meanInterval_def
        interClickIntervals_def intervalsOf_zip [symmetric] del: length_intervalsOf)
qed

lemma decisionSpeed_eq_spec:
  "calculateDecisionSpeed s = Inr (spec_decisionSpeed (map cs_timestamp (clickData s)))"
proof (cases "length (clickData s) < 2")
  case True
  then show ?thesis by (simp add: calculateDecisionSpeed_def spec_decisionSpeed_def)
next
  case False
  then show ?thesis
    by (simp only: decisionSpeed_many [OF False] min_one_div spec_decisionSpeed_def
        length_map if_False)
qed

text \<open>
  C5: the decision speed is 0.5 with fewer than two clicks; otherwise it is the minimum of
  1 and 1000 over the mean of the intervals between the sorted click timestamps (1 when
  that mean is 0). It never throws. Clicks at 0, 500, 1000 and 1500 ms give exactly 1.
\<close>

theorem decisionSpeed_meets_spec:
  "calculateDecisionSpeed s = Inr (spec_decisionSpeed (map cs_timestamp (clickData s))) \<and>
   map cs_timestamp (clickData
     (session [Click 0 (ev 1 1), Click 500 (ev 2 2), Click 1000 (ev 3 3), Click 1500 (ev 4 4)]
        (init 0 0)))
     = [0, 500, 1000, 1500] \<and>
   calculateDecisionSpeed
     (session [Click 0 (ev 1 1), Click 500 (ev 2 2), Click 1000 (ev 3 3), Click 1500 (ev 4 4)]
        (init 0 0))
     = Inr (Fin 1)"
proof (intro conjI)
  show "calculateDecisionSpeed s = Inr (spec_decisionSpeed (map cs_timestamp (clickData s)))"
    by (rule decisionSpeed_eq_spec)
  show "map cs_timestamp (clickData
     (session [Click 0 (ev 1 1), Click 500 (ev 2 2), Click 1000 (ev 3 3), Click 1500 (ev 4 4)]
        (init 0 0)))
     = [0, 500, 1000, 1500]"
    by (simp add: handleClick_def updateClickHeatmap_def init_def Let_def)
  show "calculateDecisionSpeed
     (session [Click 0 (ev 1 1), Click 500 (ev 2 2), Click 1000 (ev 3 3), Click 1500 (ev 4 4)]
        (init 0 0))
     = Inr (Fin 1)"
    by (simp add: calculateDecisionSpeed_def handleClick_def updateClickHeatmap_def init_def
        Let_def reduce1_def)
qed

section \<open>Division by zero in the metrics\<close>

lemma length_stepSpeeds [simp]: "length (stepSpeeds ps) = length ps - 1"
  by (induction ps rule: stepSpeeds.induct) (simp_all add: Let_def)

lemma reduce1_nonempty: "xs \<noteq> [] \<Longrightarrow> \<exists>v. reduce1 f xs = Inr v"
  by (cases xs) (simp_all add: reduce1_def)

lemma movementConsistency_returns: "\<exists>v. calculateMovementConsistency s = Inr v"
proof (cases "length (movementPoints s) < 10")
  case True
  then show ?thesis by (simp add: calculateMovementConsistency_def)
next
  case False
  then have "0 < length (stepSpeeds (movementPoints s))" by simp
  then have "stepSpeeds (movementPoints s) \<noteq> []" by (simp del: length_stepSpeeds)
  from reduce1_nonempty [OF this] obtain v
    where "reduce1 js_add (stepSpeeds (movementPoints s)) = Inr v" by blast
  with False show ?thesis
    by (simp add: calculateMovementConsistency_def Let_def)
qed

lemma meanInterval_nonneg: "0 \<le> meanInterval ts"
proof -
  have "0 \<le> sum_list (intervalsOf (sort ts))"
    by (rule sum_intervalsOf_sorted) simp
  then show ?thesis
    by (simp add: meanInterval_def interClickIntervals_def intervalsOf_zip [symmetric]
        del: length_intervalsOf)
qed

lemma spec_decisionSpeed_range: "\<exists>r. spec_decisionSpeed ts = Fin r \<and> 0 < r \<and> r \<le> 1"
proof -
  consider "length ts < 2" | "\<not> length ts < 2" "meanInterval ts = 0"
    | "\<not> length ts < 2" "meanInterval ts \<noteq> 0"
    by blast
  then show ?thesis
  proof cases
    case 1
    then have "spec_decisionSpeed ts = Fin (1 / 2)"
      by (simp add: spec_decisionSpeed_def)
    moreover have "0 < (1 / 2 :: real) \<and> (1 / 2 :: real) \<le> 1"
      by simp
    ultimately show ?thesis by blast
  next
    case 2
    then have "spec_decisionSpeed ts = Fin 1"
      by (simp add: spec_decisionSpeed_def)
    moreover have "0 < (1 :: real) \<and> (1 :: real) \<le> 1"
      by simp
    ultimately show ?thesis by blast
  next
    case 3
    then have "spec_decisionSpeed ts = Fin (min 1 (1000 / meanInterval ts))"
      by (simp add: spec_decisionSpeed_def)
    moreover have "0 < min 1 (1000 / meanInterval ts) \<and> min 1 (1000 / meanInterval ts) \<le> 1"
      using 3 meanInterval_nonneg [of ts] by simp
    ultimately show ?thesis by blast
  qed
qed

text \<open>
  C4, as the specification states it, fails: the click frequency has no special case. When
  the snapshot is taken in the millisecond in which the analyzer was built, the frequency
  is \<open>0/0\<close>, that is NaN, with no click, and \<open>+Infinity\<close> with one click.
\<close>

theorem click_frequency_undefined:
  "map_sum id clickFrequency (analyzeBehaviorPatterns 0 (init 0 0)) = Inr NaN \<and>
   map_sum id clickFrequency (analyzeBehaviorPatterns 0 (session [Click 0 (ev 1 1)] (init 0 0)))
     = Inr PInf"
  by (simp add: analyzeBehaviorPatterns_def calculateMovementConsistency_def
      calculateDecisionSpeed_def handleClick_def updateClickHeatmap_def init_def Let_def)

text \<open>
  C4, amended: the decision speed is always a finite number above 0 and at most 1 (0.5
  with fewer than two clicks, by its special case; 1 when the mean interval is 0, since the
  minimum of 1 and \<open>+Infinity\<close> is 1). The extractor always returns a snapshot, and the
  click frequency in it is not special-cased: it is the finite quotient of the click count
  by the elapsed minutes when the elapsed time is not 0, and at elapsed time 0 it is NaN
  with no click and \<open>+Infinity\<close> otherwise.
\<close>

theorem division_by_zero_cases:
  "(\<exists>r. calculateDecisionSpeed s = Inr (Fin r) \<and> 0 < r \<and> r \<le> 1) \<and>
   (\<exists>p. analyzeBehaviorPatterns now s = Inr p \<and>
        clickFrequency p =
          (if now = sessionStart s then (if clickData s = [] then NaN else PInf)
           else Fin (real (length (clickData s)) /
                     (real_of_int (now - sessionStart s) / 60000))))"
proof
  show "\<exists>r. calculateDecisionSpeed s = Inr (Fin r) \<and> 0 < r \<and> r \<le> 1"
    using spec_decisionSpeed_range [of "map cs_timestamp (clickData s)"]
    by (simp add: decisionSpeed_eq_spec)
  obtain v where v: "calculateMovementConsistency s = Inr v"
    using movementConsistency_returns by blast
  show "\<exists>p. analyzeBehaviorPatterns now s = Inr p \<and>
        clickFrequency p =
          (if now = sessionStart s then (if clickData s = [] then NaN else PInf)
           else Fin (real (length (clickData s)) /
                     (real_of_int (now - sessionStart s) / 60000)))"
    by (simp add: analyzeBehaviorPatterns_def Let_def v decisionSpeed_eq_spec)
qed

section \<open>Movement consistency\<close>





















section \<open>The extractor leaves the buffers as they are\<close>

lemmas comp_defs = ret_def throw_def andThen_def newArray_def getArray_def setArray_def
  getMouse_def getClicks_def getScrolls_def getMoves_def getNums_def getTimes_def
  pushNum_def pushTime_def sortTimes_def

lemma andThen_apply:
  "andThen c f st =
     (case c st of (Inl e, st') \<Rightarrow> (Inl e, st') | (Inr x, st') \<Rightarrow> f x st')"
  by (simp add: andThen_def)

lemma intervals_loop:
  "forEach js (\<lambda>i. andThen (getTimes (length st))
       (\<lambda>ts. pushTime (Suc (length st)) (ts ! i - ts ! (i - 1))))
     (st @ [TimeArr ts, TimeArr acc]) =
   (Inr (), st @ [TimeArr ts, TimeArr (acc @ map (\<lambda>i. ts ! i - ts ! (i - 1)) js)])"
proof (induction js arbitrary: acc)
  case Nil
  show ?case by (simp add: ret_def)
next
  case (Cons j js)
  have step: "andThen (getTimes (length st))
       (\<lambda>ts. pushTime (Suc (length st)) (ts ! j - ts ! (j - 1)))
       (st @ [TimeArr ts, TimeArr acc]) =
     (Inr (), st @ [TimeArr ts, TimeArr (acc @ [ts ! j - ts ! (j - 1)])])"
    by (simp add: comp_defs nth_append list_update_append)
  show ?case
    using step Cons.IH [of "acc @ [ts ! j - ts ! (j - 1)]"]
    by (simp add: andThen_def [of "andThen _ _"])
qed

lemma intervalsOf_nth:
  "map (\<lambda>i. ts ! i - ts ! (i - 1)) [1 ..< length ts] = intervalsOf ts"
proof (induction ts rule: intervalsOf.induct)
  case (1 a b rest)
  have "[1 ..< length (a # b # rest)] = 1 # map Suc [1 ..< length (b # rest)]"
    by (simp add: upt_conv_Cons map_Suc_upt del: upt_Suc)
  then have "map (\<lambda>i. (a # b # rest) ! i - (a # b # rest) ! (i - 1))
        [1 ..< length (a # b # rest)] =
      (b - a) # map (\<lambda>i. (b # rest) ! i - (b # rest) ! (i - 1)) [1 ..< length (b # rest)]"
    by (simp add: comp_def del: upt_Suc)
  then show ?case
    using "1.IH" by simp
qed simp_all

lemma decisionSpeed_st:
  assumes "buffersAt this st s"
  shows "calculateDecisionSpeed_st this st =
    (calculateDecisionSpeed s,
     st @ (if length (clickData s) < 2 then []
           else [TimeArr (sort (map cs_timestamp (clickData s))),
                 TimeArr (intervalsOf (sort (map cs_timestamp (clickData s))))]))"
proof -
  let ?ts = "sort (map cs_timestamp (clickData s))"
  let ?n = "length st"
  have 1: "getClicks (ref_clickData this) st = (Inr (clickData s), st)"
    using assms by (simp add: buffersAt_def comp_defs)
  show ?thesis
  proof (cases "length (clickData s) < 2")
    case True
    then show ?thesis
      by (simp add: calculateDecisionSpeed_st_def calculateDecisionSpeed_def andThen_apply 1
          ret_def)
  next
    case False
    have 2: "newArray (TimeArr (map cs_timestamp (clickData s))) st =
        (Inr ?n, st @ [TimeArr (map cs_timestamp (clickData s))])"
      by (simp add: newArray_def)
    have 3: "sortTimes ?n (st @ [TimeArr (map cs_timestamp (clickData s))]) =
        (Inr ?n, st @ [TimeArr ?ts])"
      by (simp add: comp_defs)
    have 4: "newArray (TimeArr []) (st @ [TimeArr ?ts]) =
        (Inr (Suc ?n), st @ [TimeArr ?ts, TimeArr []])"
      by (simp add: newArray_def)
    have 5: "getTimes ?n (st @ [TimeArr ?ts, TimeArr []]) =
        (Inr ?ts, st @ [TimeArr ?ts, TimeArr []])"
      by (simp add: comp_defs nth_append)
    have 6: "forEach [1 ..< length ?ts] (\<lambda>i. andThen (getTimes ?n)
          (\<lambda>ts. pushTime (Suc ?n) (ts ! i - ts ! (i - 1)))) (st @ [TimeArr ?ts, TimeArr []]) =
        (Inr (), st @ [TimeArr ?ts, TimeArr (intervalsOf ?ts)])"
      by (simp only: intervals_loop intervalsOf_nth append_Nil)
    have 7: "getTimes (Suc ?n) (st @ [TimeArr ?ts, TimeArr (intervalsOf ?ts)]) =
        (Inr (intervalsOf ?ts), st @ [TimeArr ?ts, TimeArr (intervalsOf ?ts)])"
      by (simp add: comp_defs nth_append)
    from False show ?thesis
      unfolding calculateDecisionSpeed_st_def calculateDecisionSpeed_def
      by (simp only: andThen_apply 1 2 3 4 5 6 7 prod.case sum.case if_False Let_def)
        (simp add: ret_def throw_def split: sum.splits)
  qed
qed

lemma speeds_loop:
  assumes "r < length st" "st ! r = MoveArr pts"
  shows "forEach js (\<lambda>i. andThen (getMoves r) (\<lambda>pts.
           let dist = calculateDistance (mp_x (pts ! (i - 1))) (mp_y (pts ! (i - 1)))
                        (mp_x (pts ! i)) (mp_y (pts ! i));
               timeDiff = mp_time (pts ! i) - mp_time (pts ! (i - 1))
           in pushNum (length st) (js_div dist (js_div (Fin (of_int timeDiff)) (Fin 1000)))))
         (st @ [NumArr acc]) =
       (Inr (), st @ [NumArr (acc @ map (\<lambda>i. speedBetween (pts ! (i - 1)) (pts ! i)) js)])"
proof (induction js arbitrary: acc)
  case Nil
  show ?case by (simp add: ret_def)
next
  case (Cons j js)
  have step: "andThen (getMoves r) (\<lambda>pts.
           let dist = calculateDistance (mp_x (pts ! (j - 1))) (mp_y (pts ! (j - 1)))
                        (mp_x (pts ! j)) (mp_y (pts ! j));
               timeDiff = mp_time (pts ! j) - mp_time (pts ! (j - 1))
           in pushNum (length st) (js_div dist (js_div (Fin (of_int timeDiff)) (Fin 1000))))
         (st @ [NumArr acc]) =
       (Inr (), st @ [NumArr (acc @ [speedBetween (pts ! (j - 1)) (pts ! j)])])"
    using assms by (simp add: comp_defs nth_append speedBetween_def Let_def)
  show ?case
    using step Cons.IH [of "acc @ [speedBetween (pts ! (j - 1)) (pts ! j)]"]
    by (simp add: andThen_def [of "andThen _ _"])
qed

lemma stepSpeeds_nth:
  "map (\<lambda>i. speedBetween (ps ! (i - 1)) (ps ! i)) [1 ..< length ps] = stepSpeeds ps"
proof (induction ps rule: stepSpeeds.induct)
  case (1 p q rest)
  have "[1 ..< length (p # q # rest)] = 1 # map Suc [1 ..< length (q # rest)]"
    by (simp add: upt_conv_Cons map_Suc_upt del: upt_Suc)
  then have "map (\<lambda>i. speedBetween ((p # q # rest) ! (i - 1)) ((p # q # rest) ! i))
        [1 ..< length (p # q # rest)] =
      speedBetween p q #
        map (\<lambda>i. speedBetween ((q # rest) ! (i - 1)) ((q # rest) ! i))
          [1 ..< length (q # rest)]"
    by (simp add: comp_def del: upt_Suc)
  then show ?case
    using "1.IH" by (simp add: speedBetween_def Let_def)
qed simp_all

lemma movementConsistency_st:
  assumes "buffersAt this st s"
  shows "calculateMovementConsistency_st this st =
    (calculateMovementConsistency s,
     st @ (if length (movementPoints s) < 10 then []
           else [NumArr (stepSpeeds (movementPoints s))]))"
proof -
  let ?ps = "movementPoints s"
  let ?n = "length st"
  from assms have r: "ref_movementPoints this < length st"
      "st ! ref_movementPoints this = MoveArr ?ps"
    by (simp_all add: buffersAt_def)
  have 1: "getMoves (ref_movementPoints this) st = (Inr ?ps, st)"
    using r by (simp add: comp_defs)
  show ?thesis
  proof (cases "length ?ps < 10")
    case True
    then show ?thesis
      by (simp add: calculateMovementConsistency_st_def calculateMovementConsistency_def
          andThen_apply 1 ret_def)
  next
    case False
    have 2: "newArray (NumArr []) st = (Inr ?n, st @ [NumArr []])"
      by (simp add: newArray_def)
    have 3: "forEach [1 ..< length ?ps]
         (\<lambda>i. andThen (getMoves (ref_movementPoints this)) (\<lambda>pts.
           let dist = calculateDistance (mp_x (pts ! (i - 1))) (mp_y (pts ! (i - 1)))
                        (mp_x (pts ! i)) (mp_y (pts ! i));
               timeDiff = mp_time (pts ! i) - mp_time (pts ! (i - 1))
           in pushNum ?n (js_div dist (js_div (Fin (of_int timeDiff)) (Fin 1000)))))
         (st @ [NumArr []]) = (Inr (), st @ [NumArr (stepSpeeds ?ps)])"
      by (simp only: speeds_loop [OF r] stepSpeeds_nth append_Nil)
    have 4: "getNums ?n (st @ [NumArr (stepSpeeds ?ps)]) =
        (Inr (stepSpeeds ?ps), st @ [NumArr (stepSpeeds ?ps)])"
      by (simp add: comp_defs nth_append)
    from False show ?thesis
      unfolding calculateMovementConsistency_st_def calculateMovementConsistency_def
      by (simp only: andThen_apply 1 2 3 4 prod.case sum.case if_False)
        (simp add: ret_def throw_def Let_def split: sum.splits)
  qed
qed

lemma buffersAt_append: "buffersAt this st s \<Longrightarrow> buffersAt this (st @ extra) s"
  by (simp add: buffersAt_def nth_append)

lemma analyze_st:
  assumes "buffersAt this st s"
  shows "analyzeBehaviorPatterns_st now this st =
    (analyzeBehaviorPatterns now s, st @ scratchArrays s)"
proof -
  let ?a = "if length (scrollData s) > 0 then [NumArr (map ss_velocity (scrollData s))] else []"
  let ?b = "if length (movementPoints s) < 10 then []
            else [NumArr (stepSpeeds (movementPoints s))]"
  have 1: "getMouse (ref_mouseData this) st = (Inr (mouseData s), st)"
    using assms by (simp add: buffersAt_def comp_defs)
  have 2: "getClicks (ref_clickData this) st = (Inr (clickData s), st)"
    using assms by (simp add: buffersAt_def comp_defs)
  have 3: "getScrolls (ref_scrollData this) st = (Inr (scrollData s), st)"
    using assms by (simp add: buffersAt_def comp_defs)
  have 4: "(if length (scrollData s) > 0
              then andThen (newArray (NumArr (map ss_velocity (scrollData s)))) (\<lambda>velocities.
                   andThen (getNums velocities) (\<lambda>vs. ret (js_max_list vs)))
              else ret (Fin 0)) st =
      (Inr (if length (scrollData s) > 0 then js_max_list (map ss_velocity (scrollData s))
            else Fin 0), st @ ?a)"
    by (simp add: comp_defs)
  have 5: "calculateMovementConsistency_st this (st @ ?a) =
      (calculateMovementConsistency s, (st @ ?a) @ ?b)"
    by (rule movementConsistency_st [OF buffersAt_append [OF assms]])
  have 6: "calculateDecisionSpeed_st this ((st @ ?a) @ ?b) =
      (calculateDecisionSpeed s, st @ scratchArrays s)"
    using decisionSpeed_st [OF buffersAt_append [OF buffersAt_append [OF assms]], of ?a ?b]
    by (simp add: scratchArrays_def)
  from assms have ss: "val_sessionStart this = sessionStart s"
    by (simp add: buffersAt_def)
  obtain v where v: "calculateMovementConsistency s = Inr v"
    using movementConsistency_returns by blast
  obtain d where d: "calculateDecisionSpeed s = Inr d"
    by (simp add: decisionSpeed_eq_spec)
  show ?thesis
    unfolding analyzeBehaviorPatterns_st_def analyzeBehaviorPatterns_def
    by (simp only: andThen_apply 1 2 3 4 5 6 prod.case sum.case Let_def ss)
      (simp add: ret_def v d)
qed

text \<open>
  C9: when the store holds the four buffers of an analyzer at the addresses of
  \<^verbatim>\<open>this\<close>, a run of the extractor returns the snapshot that the extractor on values
  computes from these buffers, and it does return one. It leaves every array that the store
  held before as it was, and only adds arrays behind them; so the four buffers are still
  there sample for sample, the click samples in their order although the decision speed
  sorts their timestamps. A second run on the store that the first one leaves returns the
  same snapshot. The same holds for the decision speed and the movement consistency alone.
\<close>

theorem extraction_is_pure:
  "buffersAt this st s \<longrightarrow>
     fst (analyzeBehaviorPatterns_st now this st) = analyzeBehaviorPatterns now s \<and>
     (\<exists>p. analyzeBehaviorPatterns now s = Inr p) \<and>
     take (length st) (snd (analyzeBehaviorPatterns_st now this st)) = st \<and>
     buffersAt this (snd (analyzeBehaviorPatterns_st now this st)) s \<and>
     fst (analyzeBehaviorPatterns_st now this (snd (analyzeBehaviorPatterns_st now this st))) =
       fst (analyzeBehaviorPatterns_st now this st) \<and>
     take (length st) (snd (calculateDecisionSpeed_st this st)) = st \<and>
     fst (calculateDecisionSpeed_st this st) = calculateDecisionSpeed s \<and>
     take (length st) (snd (calculateMovementConsistency_st this st)) = st \<and>
     fst (calculateMovementConsistency_st this st) = calculateMovementConsistency s"
proof
  assume b: "buffersAt this st s"
  have b': "buffersAt this (st @ scratchArrays s) s"
    by (rule buffersAt_append [OF b])
  obtain v where v: "calculateMovementConsistency s = Inr v"
    using movementConsistency_returns by blast
  obtain d where d: "calculateDecisionSpeed s = Inr d"
    by (simp add: decisionSpeed_eq_spec)
  have "\<exists>p. analyzeBehaviorPatterns now s = Inr p"
    by (simp add: analyzeBehaviorPatterns_def Let_def v d)
  then show "fst (analyzeBehaviorPatterns_st now this st) = analyzeBehaviorPatterns now s \<and>
     (\<exists>p. analyzeBehaviorPatterns now s = Inr p) \<and>
     take (length st) (snd (analyzeBehaviorPatterns_st now this st)) = st \<and>
     buffersAt this (snd (analyzeBehaviorPatterns_st now this st)) s \<and>
     fst (analyzeBehaviorPatterns_st now this (snd (analyzeBehaviorPatterns_st now this st))) =
       fst (analyzeBehaviorPatterns_st now this st) \<and>
     take (length st) (snd (calculateDecisionSpeed_st this st)) = st \<and>
     fst (calculateDecisionSpeed_st this st) = calculateDecisionSpeed s \<and>
     take (length st) (snd (calculateMovementConsistency_st this st)) = st \<and>
     fst (calculateMovementConsistency_st this st) = calculateMovementConsistency s"
    using b'
    by (simp add: analyze_st [OF b] analyze_st [OF b'] decisionSpeed_st [OF b]
        movementConsistency_st [OF b])
qed

theorem extraction_is_pure_witness:
  "buffersAt this0 st0 s0 \<and>
   analyzeBehaviorPatterns_st 60000 this0 st0 =
     (Inr \<lparr>avgSpeed = Fin 0, clickFrequency = Fin 2, scrollIntensity = Fin 0,
           movementConsistency = Fin (1 / 2), decisionSpeed = Fin 1\<rparr>,
      st0 @ [NumArr [Fin 0], TimeArr [0, 500], TimeArr [500]]) \<and>
   snd (analyzeBehaviorPatterns_st 60000 this0 st0) ! 1 = ClickArr [clickAt 500, clickAt 0] \<and>
   analyzeBehaviorPatterns 60000 s0 =
     Inr \<lparr>avgSpeed = Fin 0, clickFrequency = Fin 2, scrollIntensity = Fin 0,
          movementConsistency = Fin (1 / 2), decisionSpeed = Fin 1\<rparr>"
  using extraction_is_pure [of this0 st0 s0 60000]
  by (simp add: buffersAt_def this0_def st0_def s0_def init_def clickAt_def
      analyzeBehaviorPatterns_st_def calculateMovementConsistency_st_def
      calculateDecisionSpeed_st_def comp_defs Let_def reduce1_def js_max_list_def
      analyzeBehaviorPatterns_def calculateMovementConsistency_def calculateDecisionSpeed_def)

end
